theory Spec2Isabelle
  imports Complex_Main
begin

section \<open>The split navigator of createSurfSplitNavigator.js\<close>

text \<open>
  A shallow embedding of \<^verbatim>\<open>src/createSurfSplitNavigator.js\<close>: the split detector
  \<^verbatim>\<open>getIsSplitted\<close>, the fallback hook \<^verbatim>\<open>useWindowDimensionsFallback\<close> and the component
  \<^verbatim>\<open>SurfSplitNavigator\<close> with its two effects and its three render branches.
  JavaScript numbers that measure the viewport are reals; route indices are naturals; a thrown
  exception is the left summand of a sum type.
\<close>

subsection \<open>Data\<close>

text \<open>The object \<^verbatim>\<open>Dimensions.get('window')\<close> returns.\<close>

record dimensions =
  width :: real
  height :: real
  scale :: real
  fontScale :: real

text \<open>A route of the navigation state; \<^verbatim>\<open>params\<close> is never read by this file.\<close>

record route =
  key :: string
  name :: string

text \<open>
  The navigation state \<^verbatim>\<open>useNavigationBuilder\<close> returns. The field \<^verbatim>\<open>type\<close> is a
  string in the source (\<^verbatim>\<open>type: 'stack'\<close>).
\<close>

record navigation_state =
  routes :: "route list"
  index :: nat
  type :: string

text \<open>The descriptor map, by route key; the value is what \<^verbatim>\<open>descriptor.render()\<close> returns.\<close>

type_synonym 'ui descriptors = "string \<rightharpoonup> 'ui"

text \<open>
  What the source throws: \<^verbatim>\<open>new Error(message)\<close>, and the \<^verbatim>\<open>TypeError\<close> of reading
  \<^verbatim>\<open>.render\<close> from \<^verbatim>\<open>undefined\<close> when the descriptor map has no entry for a key.
\<close>

datatype error = Error string | TypeError

text \<open>The action \<^verbatim>\<open>SurfSplitActions.setSplitted(isSplitted, initialRouteName)\<close> builds.\<close>

datatype action = setSplitted bool string

text \<open>
  Names the module imports: \<^verbatim>\<open>MAIN_SCREEN_NAME\<close> (from \<^verbatim>\<open>./SurfSplitRouter\<close>, whose value
  is not part of this file), \<^verbatim>\<open>Platform.OS\<close> and the result of \<^verbatim>\<open>screensEnabled()\<close>.
  They are parameters of the model.
\<close>

record env =
  MAIN_SCREEN_NAME :: string
  Platform_OS :: string
  screensEnabled :: bool

text \<open>
  Styles: the three entries of the module's own \<^verbatim>\<open>StyleSheet.create\<close> table that the
  split layout falls back to, or a style the caller supplies.
\<close>

datatype 'sty style = styles_body | styles_main | styles_detail | Custom 'sty

record 'sty splitStyles =
  body :: "'sty style option"
  main :: "'sty style option"
  detail :: "'sty style option"

text \<open>
  The prop \<^verbatim>\<open>screenOptions\<close>: the two optional fields the Flow type names and the
  remaining keys of the inexact object type (\<^verbatim>\<open>...\<close>).
\<close>

record ('sty, 'v) screenOptions =
  splitStyles :: "'sty splitStyles option"
  headerShown :: "bool option"
  otherOptions :: "string \<rightharpoonup> 'v"

record ('sty, 'v) props =
  initialRouteName :: string
  mainWidth :: real
  screenOptions :: "('sty, 'v) screenOptions option"

subsection \<open>The split detector\<close>

text \<open>\<^verbatim>\<open>const getIsSplitted = ({ width }, mainWidth) => width > mainWidth;\<close>\<close>

definition getIsSplitted :: "dimensions \<Rightarrow> real \<Rightarrow> bool" where
  "getIsSplitted d mw = (width d > mw)"

subsection \<open>The options handed to the navigation builder\<close>

text \<open>
  \<^verbatim>\<open>const { splitStyles: splitStylesFromOptions, ...restScreenOptions } = screenOptions || {};\<close>
  The rest pattern drops the key \<^verbatim>\<open>splitStyles\<close> and keeps every other key.
\<close>

definition empty_options :: "('sty, 'v) screenOptions" where
  "empty_options = \<lparr>splitStyles = None, headerShown = None, otherOptions = Map.empty\<rparr>"

definition options_or_empty :: "('sty, 'v) screenOptions option \<Rightarrow> ('sty, 'v) screenOptions" where
  "options_or_empty so = (case so of None \<Rightarrow> empty_options | Some s \<Rightarrow> s)"

definition splitStylesFromOptions :: "('sty, 'v) screenOptions option \<Rightarrow> 'sty splitStyles option" where
  "splitStylesFromOptions so = splitStyles (options_or_empty so)"

definition restScreenOptions :: "('sty, 'v) screenOptions option \<Rightarrow> ('sty, 'v) screenOptions" where
  "restScreenOptions so = (options_or_empty so)\<lparr>splitStyles := None\<rparr>"

text \<open>
  \<^verbatim>\<open>splitStylesFromOptions || { body: styles.body, main: styles.main, detail: styles.detail }\<close>
\<close>

definition default_splitStyles :: "'sty splitStyles" where
  "default_splitStyles =
     \<lparr>body = Some styles_body, main = Some styles_main, detail = Some styles_detail\<rparr>"

definition chosen_splitStyles :: "('sty, 'v) screenOptions option \<Rightarrow> 'sty splitStyles" where
  "chosen_splitStyles so =
     (case splitStylesFromOptions so of None \<Rightarrow> default_splitStyles | Some s \<Rightarrow> s)"

text \<open>
  The \<^verbatim>\<open>screenOptions\<close> entry of the object passed to \<^verbatim>\<open>useNavigationBuilder\<close>:
  \<^verbatim>\<open>{ ...restScreenOptions, headerShown: false }\<close>. The later key wins.
\<close>

definition builder_screenOptions :: "('sty, 'v) screenOptions option \<Rightarrow> ('sty, 'v) screenOptions" where
  "builder_screenOptions so = (restScreenOptions so)\<lparr>headerShown := Some False\<rparr>"

subsection \<open>The fallback dimension watcher\<close>

text \<open>
  \<^verbatim>\<open>useWindowDimensionsFallback\<close> is used when React Native exports no
  \<^verbatim>\<open>useWindowDimensions\<close>. Its inner function \<^verbatim>\<open>handleChange({ window })\<close> compares
  four fields of the rendered state with the notified value; the result is \<open>Some window\<close>
  when it calls \<^verbatim>\<open>setDimensions(window)\<close> and \<open>None\<close> when it does nothing.
\<close>

definition handleChange :: "dimensions \<Rightarrow> dimensions \<Rightarrow> dimensions option" where
  "handleChange dims window =
     (if width dims \<noteq> width window \<or>
         height dims \<noteq> height window \<or>
         scale dims \<noteq> scale window \<or>
         fontScale dims \<noteq> fontScale window
      then Some window else None)"

text \<open>
  The hook's instance: the value of \<^verbatim>\<open>useState\<close>, and the value the registered listener's
  closure compares against (\<open>None\<close> while no listener is registered).
\<close>

record watcher =
  dimensions_state :: dimensions
  listener :: "dimensions option"

text \<open>The first render: \<^verbatim>\<open>React.useState(() => Dimensions.get('window'))\<close>.\<close>

definition fallback_first_render :: "dimensions \<Rightarrow> watcher" where
  "fallback_first_render window = \<lparr>dimensions_state = window, listener = None\<rparr>"

text \<open>\<^verbatim>\<open>setDimensions\<close> applied to what \<^verbatim>\<open>handleChange\<close> decided.\<close>

definition setDimensions :: "dimensions option \<Rightarrow> watcher \<Rightarrow> watcher" where
  "setDimensions upd s = (case upd of None \<Rightarrow> s | Some w \<Rightarrow> s\<lparr>dimensions_state := w\<rparr>)"

text \<open>
  The effect body, run after a commit: it registers \<^verbatim>\<open>handleChange\<close> (closed over the
  rendered \<^verbatim>\<open>dimensions\<close>) and then calls it on \<^verbatim>\<open>Dimensions.get('window')\<close>, here
  the argument \<open>window\<close>.
\<close>

definition fallback_effect :: "dimensions \<Rightarrow> watcher \<Rightarrow> watcher" where
  "fallback_effect window s =
     (let subscribed = s\<lparr>listener := Some (dimensions_state s)\<rparr>
      in setDimensions (handleChange (dimensions_state s) window) subscribed)"

text \<open>A \<^verbatim>\<open>'change'\<close> notification reaches the registered listener, if there is one.\<close>

definition fallback_notify :: "dimensions \<Rightarrow> watcher \<Rightarrow> watcher" where
  "fallback_notify window s =
     (case listener s of
        None \<Rightarrow> s
      | Some dims \<Rightarrow> setDimensions (handleChange dims window) s)"

text \<open>
  \<^verbatim>\<open>const useWindowDimensions = useWindowDimensionsNative || function useWindowDimensionsFallback() ...\<close>:
  the native hook when React Native exports one, the fallback otherwise.
\<close>

definition useWindowDimensions :: "'hook option \<Rightarrow> 'hook \<Rightarrow> 'hook" where
  "useWindowDimensions useWindowDimensionsNative useWindowDimensionsFallback =
     (case useWindowDimensionsNative of
        Some native \<Rightarrow> native
      | None \<Rightarrow> useWindowDimensionsFallback)"

subsection \<open>Rendering\<close>

text \<open>
  The element trees the component returns. A split layout carries the value of the
  navigation context provider, the three styles, the content of the main pane and the
  children of the \<^verbatim>\<open>ScreenContainer\<close>, one per route in route order, \<open>None\<close> where the
  callback of \<^verbatim>\<open>state.routes.map\<close> returns \<^verbatim>\<open>null\<close>. The two stack views carry their props.
\<close>

datatype 'ui scene = ResourceSavingScene (scene_key: string) (isVisible: bool) (scene_child: 'ui)

datatype ('ui, 'nav, 'sty) element =
    SplitLayout (provider_value: 'nav) (layout_styles: "'sty splitStyles")
      (main_pane: 'ui) (detail_pane: "'ui scene option list")
  | NativeStackView (view_state: navigation_state) (view_navigation: 'nav)
      (view_descriptors: "'ui descriptors")
  | StackView (view_headerMode: string) (view_state: navigation_state) (view_navigation: 'nav)
      (view_descriptors: "'ui descriptors")

text \<open>\<^verbatim>\<open>state.routes.find(({ name }) => name === MAIN_SCREEN_NAME)\<close>\<close>

definition find_mainRoute :: "env \<Rightarrow> navigation_state \<Rightarrow> route option" where
  "find_mainRoute e st = find (\<lambda>r. name r = MAIN_SCREEN_NAME e) (routes st)"

text \<open>The callback of \<^verbatim>\<open>state.routes.map((route, index) => ...)\<close>.\<close>

definition render_route ::
  "'ui descriptors \<Rightarrow> nat list \<Rightarrow> navigation_state \<Rightarrow> route \<Rightarrow> route \<Rightarrow> nat
   \<Rightarrow> error + 'ui scene option" where
  "render_route descriptors loaded st mainRoute r i =
     (let descriptor = descriptors (key r);
          isFocused = (index st = i)
      in if key r = key mainRoute then Inr None
         else if i \<notin> set loaded \<and> \<not> isFocused then Inr None
         else (case descriptor of
                 None \<Rightarrow> Inl TypeError
               | Some ui \<Rightarrow> Inr (Some (ResourceSavingScene (key r) isFocused ui))))"

text \<open>The \<^verbatim>\<open>map\<close> itself, from position \<open>i\<close> on; the first exception ends it.\<close>

fun render_routes ::
  "'ui descriptors \<Rightarrow> nat list \<Rightarrow> navigation_state \<Rightarrow> route \<Rightarrow> route list \<Rightarrow> nat
   \<Rightarrow> error + 'ui scene option list" where
  "render_routes descriptors loaded st mainRoute [] i = Inr []"
| "render_routes descriptors loaded st mainRoute (r # rs) i =
     (case render_route descriptors loaded st mainRoute r i of
        Inl err \<Rightarrow> Inl err
      | Inr x \<Rightarrow>
          (case render_routes descriptors loaded st mainRoute rs (Suc i) of
             Inl err \<Rightarrow> Inl err
           | Inr xs \<Rightarrow> Inr (x # xs)))"

text \<open>The branch \<^verbatim>\<open>if (isSplitted) { ... }\<close>.\<close>

definition missing_main_message :: "env \<Rightarrow> string" where
  "missing_main_message e = ''You should provide '' @ MAIN_SCREEN_NAME e @ '' screen!''"

definition split_render ::
  "env \<Rightarrow> 'nav \<Rightarrow> 'ui descriptors \<Rightarrow> 'sty splitStyles \<Rightarrow> nat list \<Rightarrow> navigation_state
   \<Rightarrow> error + ('ui, 'nav, 'sty) element" where
  "split_render e navigation descriptors styles loaded st =
     (case find_mainRoute e st of
        None \<Rightarrow> Inl (Error (missing_main_message e))
      | Some mainRoute \<Rightarrow>
          (case descriptors (key mainRoute) of
             None \<Rightarrow> Inl TypeError
           | Some m \<Rightarrow>
               (case render_routes descriptors loaded st mainRoute (routes st) 0 of
                  Inl err \<Rightarrow> Inl err
                | Inr ds \<Rightarrow> Inr (SplitLayout navigation styles m ds))))"

text \<open>The rest of the function body: the stack branch.\<close>

definition stack_render ::
  "env \<Rightarrow> 'nav \<Rightarrow> 'ui descriptors \<Rightarrow> navigation_state \<Rightarrow> ('ui, 'nav, 'sty) element" where
  "stack_render e navigation descriptors st =
     (let stackState = st\<lparr>type := ''stack''\<rparr>
      in if Platform_OS e \<noteq> ''web'' \<and> screensEnabled e
         then NativeStackView stackState navigation descriptors
         else StackView ''none'' stackState navigation descriptors)"

text \<open>
  What \<^verbatim>\<open>SurfSplitNavigator\<close> returns in one render, from its props, the value of
  \<^verbatim>\<open>useWindowDimensions()\<close>, what \<^verbatim>\<open>useNavigationBuilder\<close> returned and the state \<^verbatim>\<open>loaded\<close>.
\<close>

definition SurfSplitNavigator_render ::
  "env \<Rightarrow> ('sty, 'v) props \<Rightarrow> dimensions \<Rightarrow> 'nav \<Rightarrow> 'ui descriptors \<Rightarrow> nat list
   \<Rightarrow> navigation_state \<Rightarrow> error + ('ui, 'nav, 'sty) element" where
  "SurfSplitNavigator_render e p dims navigation descriptors loaded st =
     (let isSplitted = getIsSplitted dims (mainWidth p)
      in if isSplitted
         then split_render e navigation descriptors (chosen_splitStyles (screenOptions p)) loaded st
         else Inr (stack_render e navigation descriptors st))"

subsection \<open>The two effects and the render pass\<close>

text \<open>
  The state React keeps for one mounted \<^verbatim>\<open>SurfSplitNavigator\<close>: the array \<^verbatim>\<open>loaded\<close> of
  \<^verbatim>\<open>useState\<close>, and for each of the two \<^verbatim>\<open>useEffect\<close> calls the dependency value of the
  last commit (\<open>None\<close> before the first commit). React runs an effect after the first
  commit and after every commit in which its dependency differs from the previous one.
  The dependency \<^verbatim>\<open>[state]\<close> is compared by value here; when it is equal the focused index
  is equal too, and the body of the second effect adds nothing the previous run did not add.
\<close>

record component =
  loaded :: "nat list"
  isSplitted_deps :: "bool option"
  state_deps :: "navigation_state option"

definition unmounted :: component where
  "unmounted = \<lparr>loaded = [], isSplitted_deps = None, state_deps = None\<rparr>"

definition deps_changed :: "'a option \<Rightarrow> 'a \<Rightarrow> bool" where
  "deps_changed previous current = (previous \<noteq> Some current)"

text \<open>
  The body of the first effect: the action given to \<^verbatim>\<open>navigation.dispatch\<close>,
  \<^verbatim>\<open>SurfSplitActions.setSplitted(isSplitted, isSplitted ? initialRouteName : MAIN_SCREEN_NAME)\<close>.
\<close>

definition split_effect :: "env \<Rightarrow> ('sty, 'v) props \<Rightarrow> bool \<Rightarrow> action" where
  "split_effect e p isSplitted =
     setSplitted isSplitted (if isSplitted then initialRouteName p else MAIN_SCREEN_NAME e)"

text \<open>
  The body of the second effect: the next value of \<^verbatim>\<open>loaded\<close>,
  \<^verbatim>\<open>if (!loaded.includes(state.index)) setLoaded([...loaded, state.index])\<close>.
\<close>

definition loaded_effect :: "nat list \<Rightarrow> navigation_state \<Rightarrow> nat list" where
  "loaded_effect ld st = (if index st \<notin> set ld then ld @ [index st] else ld)"

text \<open>
  One render pass: the function body is evaluated; if it throws, nothing is committed and no
  effect runs; otherwise the tree is committed and the effects whose dependencies changed run,
  the first dispatching its action, the second setting \<^verbatim>\<open>loaded\<close>.
\<close>

record ('ui, 'nav, 'sty) commit =
  tree :: "('ui, 'nav, 'sty) element"
  dispatched :: "action list"
  mounted :: component

definition render_pass ::
  "env \<Rightarrow> ('sty, 'v) props \<Rightarrow> 'nav \<Rightarrow> 'ui descriptors \<Rightarrow> dimensions \<Rightarrow> navigation_state
   \<Rightarrow> component \<Rightarrow> error + ('ui, 'nav, 'sty) commit" where
  "render_pass e p navigation descriptors dims st c =
     (let isSplitted = getIsSplitted dims (mainWidth p)
      in case SurfSplitNavigator_render e p dims navigation descriptors (loaded c) st of
           Inl err \<Rightarrow> Inl err
         | Inr t \<Rightarrow>
             Inr \<lparr>tree = t,
                  dispatched =
                    (if deps_changed (isSplitted_deps c) isSplitted
                     then [split_effect e p isSplitted] else []),
                  mounted =
                    \<lparr>loaded =
                       (if deps_changed (state_deps c) st
                        then loaded_effect (loaded c) st else loaded c),
                     isSplitted_deps = Some isSplitted,
                     state_deps = Some st\<rparr>\<rparr>)"

subsection \<open>The component in its surroundings\<close>

text \<open>
  Modelled from the spec: the reducer of \<^verbatim>\<open>SurfSplitRouter\<close> (\<^verbatim>\<open>./SurfSplitRouter\<close>) is
  not among the sources. The specification says of the message \<^verbatim>\<open>SetMode(isSplit, target)\<close>
  that the state's type is \<^verbatim>\<open>"stack"\<close> or \<^verbatim>\<open>"split"\<close>, that sending the message while the
  store is already in that mode is a no-op, and that how routes and index are rearranged on a
  change of mode is the store's policy, which it leaves open: that policy is the parameter
  \<open>policy\<close>.
\<close>

definition mode_type :: "bool \<Rightarrow> string" where
  "mode_type isSplit = (if isSplit then ''split'' else ''stack'')"

fun SurfSplitRouter_reduce ::
  "(bool \<Rightarrow> string \<Rightarrow> navigation_state \<Rightarrow> route list \<times> nat) \<Rightarrow> navigation_state \<Rightarrow> action
   \<Rightarrow> navigation_state" where
  "SurfSplitRouter_reduce policy st (setSplitted isSplit target) =
     (if type st = mode_type isSplit then st
      else \<lparr>routes = fst (policy isSplit target st),
            index = snd (policy isSplit target st),
            type = mode_type isSplit\<rparr>)"

text \<open>
  The component, the viewport the dimension hook reports and the state the navigation store
  holds. What makes React render again: the dimension hook reports a new value, the store
  holds a new state (a navigation action of the user), or a state the component set itself.
\<close>

record world =
  component :: component
  viewport :: dimensions
  store :: navigation_state

datatype event = DimensionsChange dimensions | StateChange navigation_state | Rerender

fun arrive :: "world \<Rightarrow> event \<Rightarrow> world" where
  "arrive w (DimensionsChange d) = w\<lparr>viewport := d\<rparr>"
| "arrive w (StateChange s) = w\<lparr>store := s\<rparr>"
| "arrive w Rerender = w"

text \<open>
  An event and the render pass it causes. The actions the pass dispatched reach the store
  through \<open>reduce\<close>, the reducer of the router.
\<close>

definition handle_event ::
  "(navigation_state \<Rightarrow> action \<Rightarrow> navigation_state) \<Rightarrow> env \<Rightarrow> ('sty, 'v) props \<Rightarrow> 'nav
   \<Rightarrow> 'ui descriptors \<Rightarrow> world \<Rightarrow> event \<Rightarrow> error + world \<times> action list" where
  "handle_event reduce e p navigation descriptors w ev =
     (let w1 = arrive w ev
      in case render_pass e p navigation descriptors (viewport w1) (store w1) (component w1) of
           Inl err \<Rightarrow> Inl err
         | Inr (cm :: ('ui, 'nav, 'sty) commit) \<Rightarrow>
             Inr (w1\<lparr>component := mounted cm,
                     store := foldl reduce (store w1) (dispatched cm)\<rparr>,
                  dispatched cm))"

fun run ::
  "(navigation_state \<Rightarrow> action \<Rightarrow> navigation_state) \<Rightarrow> env \<Rightarrow> ('sty, 'v) props \<Rightarrow> 'nav
   \<Rightarrow> 'ui descriptors \<Rightarrow> world \<Rightarrow> event list \<Rightarrow> error + world \<times> action list" where
  "run reduce e p navigation descriptors w [] = Inr (w, [])"
| "run reduce e p navigation descriptors w (ev # evs) =
     (case handle_event reduce e p navigation descriptors w ev of
        Inl err \<Rightarrow> Inl err
      | Inr (w1, ms) \<Rightarrow>
          (case run reduce e p navigation descriptors w1 evs of
             Inl err \<Rightarrow> Inl err
           | Inr (w2, ms') \<Rightarrow> Inr (w2, ms @ ms')))"

text \<open>Mounting: the first render pass of a fresh component.\<close>

definition mount ::
  "(navigation_state \<Rightarrow> action \<Rightarrow> navigation_state) \<Rightarrow> env \<Rightarrow> ('sty, 'v) props \<Rightarrow> 'nav
   \<Rightarrow> 'ui descriptors \<Rightarrow> dimensions \<Rightarrow> navigation_state \<Rightarrow> error + world \<times> action list" where
  "mount reduce e p navigation descriptors dims st =
     handle_event reduce e p navigation descriptors
       \<lparr>component = unmounted, viewport = dims, store = st\<rparr> Rerender"

text \<open>The dimensions each render pass of a run sees, in order.\<close>

fun observed :: "dimensions \<Rightarrow> event list \<Rightarrow> dimensions list" where
  "observed d [] = []"
| "observed d (DimensionsChange d' # evs) = d' # observed d' evs"
| "observed d (StateChange s # evs) = d # observed d evs"
| "observed d (Rerender # evs) = d # observed d evs"

text \<open>
  The synchronizer as the specification words it: keep the previous value of the boolean,
  compare at every update, and send one message on inequality only.
\<close>

fun edge_messages :: "env \<Rightarrow> ('sty, 'v) props \<Rightarrow> bool \<Rightarrow> bool list \<Rightarrow> action list" where
  "edge_messages e p previous [] = []"
| "edge_messages e p previous (b # bs) =
     (if b \<noteq> previous then [split_effect e p b] else []) @ edge_messages e p b bs"

text \<open>The number of places where a list of booleans changes value.\<close>

fun edges :: "bool list \<Rightarrow> nat" where
  "edges (a # b # bs) = (if a \<noteq> b then 1 else 0) + edges (b # bs)"
| "edges bs = 0"

text \<open>Events that are not a change of the store by somebody else.\<close>

fun viewport_event :: "event \<Rightarrow> bool" where
  "viewport_event (StateChange s) = False"
| "viewport_event ev = True"

text \<open>
  The component and the store agree on the mode: the boolean of the last commit is the one
  the viewport gives, and the type of the store's state is the type of that mode.
\<close>

definition in_sync :: "('sty, 'v) props \<Rightarrow> world \<Rightarrow> bool" where
  "in_sync p w =
     (isSplitted_deps (component w) = Some (getIsSplitted (viewport w) (mainWidth p)) \<and>
      type (store w) = mode_type (getIsSplitted (viewport w) (mainWidth p)))"

text \<open>
  The focus of the last commit is on record: the index of the state that commit rendered is
  in \<^verbatim>\<open>loaded\<close>. A component that has not committed yet has nothing to record.
\<close>

definition focus_recorded :: "component \<Rightarrow> bool" where
  "focus_recorded c =
     (case state_deps c of None \<Rightarrow> True | Some s \<Rightarrow> index s \<in> set (loaded c))"

subsection \<open>Concrete inputs\<close>

text \<open>
  A configuration in the style of the specification's scenarios: threshold 300, the main
  screen named \<^verbatim>\<open>main\<close>, two detail screens, a viewport 400 wide and one 200 wide.
\<close>

definition ex_env :: env where
  "ex_env = \<lparr>MAIN_SCREEN_NAME = ''main'', Platform_OS = ''ios'', screensEnabled = True\<rparr>"

definition ex_props :: "(nat, nat) props" where
  "ex_props = \<lparr>initialRouteName = ''detailA'', mainWidth = 300, screenOptions = None\<rparr>"

definition wide :: dimensions where
  "wide = \<lparr>width = 400, height = 800, scale = 2, fontScale = 1\<rparr>"

definition narrow :: dimensions where
  "narrow = \<lparr>width = 200, height = 800, scale = 2, fontScale = 1\<rparr>"

definition ex_routes :: "route list" where
  "ex_routes =
     [\<lparr>key = ''main-1'', name = ''main''\<rparr>,
      \<lparr>key = ''detailA-2'', name = ''detailA''\<rparr>,
      \<lparr>key = ''detailB-3'', name = ''detailB''\<rparr>]"

definition ex_state :: "nat \<Rightarrow> string \<Rightarrow> navigation_state" where
  "ex_state i t = \<lparr>routes = ex_routes, index = i, type = t\<rparr>"

definition ex_descriptors :: "string descriptors" where
  "ex_descriptors =
     [''main-1'' \<mapsto> ''Main'', ''detailA-2'' \<mapsto> ''DetailA'', ''detailB-3'' \<mapsto> ''DetailB'']"

text \<open>A store policy that keeps routes and index as they are.\<close>

definition ex_policy :: "bool \<Rightarrow> string \<Rightarrow> navigation_state \<Rightarrow> route list \<times> nat" where
  "ex_policy isSplit target st = (routes st, index st)"

text \<open>A mounted component in its surroundings, after a commit.\<close>

definition ex_world ::
  "nat list \<Rightarrow> bool \<Rightarrow> navigation_state \<Rightarrow> dimensions \<Rightarrow> navigation_state \<Rightarrow> world" where
  "ex_world ld b rendered dims st =
     \<lparr>component = \<lparr>loaded = ld, isSplitted_deps = Some b, state_deps = Some rendered\<rparr>,
      viewport = dims, store = st\<rparr>"

definition ex_unmounted :: "dimensions \<Rightarrow> navigation_state \<Rightarrow> world" where
  "ex_unmounted dims st = \<lparr>component = unmounted, viewport = dims, store = st\<rparr>"

section \<open>Theorems\<close>

subsection \<open>The split detector and the builder's options\<close>

text \<open>
  C6. The split detector is a function of the viewport width and the threshold alone: it
  returns true exactly when the width is greater than \<^verbatim>\<open>mainWidth\<close>, whatever the other
  three fields of the dimensions are, and at the boundary (width equal to the threshold) it
  returns false. Being a HOL function of its two arguments it has no state and no hysteresis.
\<close>

theorem getIsSplitted_threshold:
  "getIsSplitted \<lparr>width = w, height = h, scale = s, fontScale = f\<rparr> m = (w > m)
   \<and> getIsSplitted \<lparr>width = m, height = h, scale = s, fontScale = f\<rparr> m = False"
  by (simp add: getIsSplitted_def)

text \<open>
  C10. Whatever \<^verbatim>\<open>screenOptions\<close> the caller supplies (none at all, or one whose
  \<^verbatim>\<open>headerShown\<close> is true), the options handed to the navigation builder have
  \<^verbatim>\<open>headerShown\<close> equal to false; the caller's other keys are handed on unchanged.
\<close>

theorem builder_screenOptions_headerShown:
  "headerShown (builder_screenOptions so) = Some False
   \<and> headerShown (builder_screenOptions (Some (s\<lparr>headerShown := Some True\<rparr>))) = Some False
   \<and> otherOptions (builder_screenOptions (Some s)) = otherOptions s"
  by (simp add: builder_screenOptions_def restScreenOptions_def options_or_empty_def)

subsection \<open>Properties of the fallback dimension watcher\<close>

lemma dimensions_eq_iff:
  "((dims :: dimensions) = window) =
     (width dims = width window \<and> height dims = height window \<and>
      scale dims = scale window \<and> fontScale dims = fontScale window)"
  by (cases dims, cases window) simp

lemma handleChange_eq: "handleChange dims window = (if dims = window then None else Some window)"
  by (simp add: handleChange_def dimensions_eq_iff)

lemma fallback_effect_state: "dimensions_state (fallback_effect window s) = window"
  by (simp add: fallback_effect_def setDimensions_def handleChange_eq Let_def)

text \<open>
  C9. The fallback is the hook in use when there is no native one. In it a notification is
  compared with the last rendered value field by field, on width, height, scale and
  fontScale: \<^verbatim>\<open>handleChange\<close> does nothing exactly when all four are equal, and otherwise
  sets the state to the notified value and to nothing else. A notification that comes after
  the first render and before the effect finds no listener and changes nothing; the effect
  that subscribes then runs the same comparison on the dimensions it reads at that moment, so
  after it the state is the current value, whatever the first render read.
\<close>

theorem fallback_watcher:
  "useWindowDimensions None fallback = fallback
   \<and> (handleChange dims window = None) =
     (width dims = width window \<and> height dims = height window \<and>
      scale dims = scale window \<and> fontScale dims = fontScale window)
   \<and> handleChange dims window \<in> {None, Some window}
   \<and> fallback_notify window (s\<lparr>listener := Some dims\<rparr>) =
       setDimensions (handleChange dims window) (s\<lparr>listener := Some dims\<rparr>)
   \<and> fallback_notify window (fallback_first_render initial) = fallback_first_render initial
   \<and> fallback_effect window s = fallback_notify window (s\<lparr>listener := Some (dimensions_state s)\<rparr>)
   \<and> dimensions_state (fallback_effect window (fallback_first_render initial)) = window"
proof -
  have u: "useWindowDimensions None fallback = fallback"
    by (simp add: useWindowDimensions_def)
  have "(handleChange dims window = None) = (dims = window)"
    by (simp add: handleChange_eq)
  then have a: "(handleChange dims window = None) =
     (width dims = width window \<and> height dims = height window \<and>
      scale dims = scale window \<and> fontScale dims = fontScale window)"
    by (simp only: dimensions_eq_iff)
  have b: "handleChange dims window \<in> {None, Some window}"
    by (simp add: handleChange_eq)
  have c: "fallback_notify window (s\<lparr>listener := Some dims\<rparr>) =
       setDimensions (handleChange dims window) (s\<lparr>listener := Some dims\<rparr>)"
    by (simp add: fallback_notify_def)
  have l: "fallback_notify window (fallback_first_render initial) = fallback_first_render initial"
    by (simp add: fallback_notify_def fallback_first_render_def)
  have d: "fallback_effect window s =
       fallback_notify window (s\<lparr>listener := Some (dimensions_state s)\<rparr>)"
    by (simp add: fallback_notify_def fallback_effect_def Let_def)
  from u a b c l d fallback_effect_state show ?thesis by blast
qed

theorem fallback_watcher_witness:
  "handleChange \<lparr>width = 400, height = 800, scale = 2, fontScale = 1\<rparr>
     \<lparr>width = 800, height = 400, scale = 2, fontScale = 1\<rparr>
     = Some \<lparr>width = 800, height = 400, scale = 2, fontScale = 1\<rparr>
   \<and> handleChange \<lparr>width = 400, height = 800, scale = 2, fontScale = 1\<rparr>
     \<lparr>width = 400, height = 800, scale = 2, fontScale = 1\<rparr> = None
   \<and> dimensions_state (fallback_effect \<lparr>width = 800, height = 400, scale = 2, fontScale = 1\<rparr>
       (fallback_first_render \<lparr>width = 400, height = 800, scale = 2, fontScale = 1\<rparr>))
     = \<lparr>width = 800, height = 400, scale = 2, fontScale = 1\<rparr>"
  using fallback_watcher [where dims = "\<lparr>width = 400, height = 800, scale = 2, fontScale = 1\<rparr>"
      and window = "\<lparr>width = 800, height = 400, scale = 2, fontScale = 1\<rparr>"
      and initial = "\<lparr>width = 400, height = 800, scale = 2, fontScale = 1\<rparr>"
      and s = "fallback_first_render \<lparr>width = 400, height = 800, scale = 2, fontScale = 1\<rparr>"
      and fallback = "()"]
    fallback_watcher [where dims = "\<lparr>width = 400, height = 800, scale = 2, fontScale = 1\<rparr>"
      and window = "\<lparr>width = 400, height = 800, scale = 2, fontScale = 1\<rparr>"
      and initial = "\<lparr>width = 400, height = 800, scale = 2, fontScale = 1\<rparr>"
      and s = "fallback_first_render \<lparr>width = 400, height = 800, scale = 2, fontScale = 1\<rparr>"
      and fallback = "()"]
  by auto

subsection \<open>Properties of a render\<close>

lemma find_mainRoute_None:
  "\<forall>r\<in>set (routes st). name r \<noteq> MAIN_SCREEN_NAME e \<Longrightarrow> find_mainRoute e st = None"
  by (simp add: find_mainRoute_def find_None_iff)

lemma render_routes_length:
  "render_routes d l st mr rs k = Inr xs \<Longrightarrow> length xs = length rs"
  by (induction rs arbitrary: k xs) (auto split: sum.splits)

lemma render_routes_nth:
  "render_routes d l st mr rs k = Inr xs \<Longrightarrow> j < length rs \<Longrightarrow>
   render_route d l st mr (rs ! j) (k + j) = Inr (xs ! j)"
proof (induction rs arbitrary: k xs j)
  case Nil
  then show ?case by simp
next
  case (Cons r rs)
  from Cons.prems(1) obtain y ys where
    y: "render_route d l st mr r k = Inr y" and
    ys: "render_routes d l st mr rs (Suc k) = Inr ys" and
    xs: "xs = y # ys"
    by (auto split: sum.splits)
  show ?case
  proof (cases j)
    case 0
    with y xs show ?thesis by simp
  next
    case (Suc j')
    with Cons.prems(2) have "j' < length rs" by simp
    from Cons.IH [OF ys this] Suc xs show ?thesis by simp
  qed
qed

lemma render_routes_total:
  "\<forall>r\<in>set rs. d (key r) \<noteq> None \<Longrightarrow> \<exists>xs. render_routes d l st mr rs k = Inr xs"
proof (induction rs arbitrary: k)
  case Nil
  then show ?case by simp
next
  case (Cons r rs)
  then obtain u where u: "d (key r) = Some u" by auto
  from Cons obtain xs where "render_routes d l st mr rs (Suc k) = Inr xs" by fastforce
  with u show ?case by (simp add: render_route_def Let_def)
qed

lemma find_mainRoute_Some:
  "find_mainRoute e st = Some mr \<Longrightarrow> mr \<in> set (routes st) \<and> name mr = MAIN_SCREEN_NAME e"
  by (auto simp: find_mainRoute_def find_Some_iff)

lemma distinct_keys_same:
  "distinct (map key rs) \<Longrightarrow> x \<in> set rs \<Longrightarrow> y \<in> set rs \<Longrightarrow> key x = key y \<Longrightarrow> x = y"
  by (meson distinct_map inj_onD)

lemma split_render_detail:
  assumes "split_render e nav d sty l st = Inr t"
  obtains mr m xs where "find_mainRoute e st = Some mr" "d (key mr) = Some m"
    "render_routes d l st mr (routes st) 0 = Inr xs" "t = SplitLayout nav sty m xs"
  using assms by (auto simp: split_render_def split: option.splits sum.splits)

lemmas ex_defs = ex_env_def ex_props_def wide_def narrow_def ex_routes_def ex_state_def
  ex_descriptors_def ex_policy_def ex_world_def ex_unmounted_def

text \<open>
  C2. When a render happens in split mode and no route of the state is named
  \<^verbatim>\<open>MAIN_SCREEN_NAME\<close>, the function throws an \<^verbatim>\<open>Error\<close> whose message names that screen.
  No element is returned, the stack branch is not reached, and the render pass commits nothing
  and runs no effect.
\<close>

theorem missing_main_route_is_fatal:
  assumes "getIsSplitted dims (mainWidth p)"
    and "\<forall>r\<in>set (routes st). name r \<noteq> MAIN_SCREEN_NAME e"
  shows "SurfSplitNavigator_render e p dims navigation descriptors ld st =
           Inl (Error (''You should provide '' @ MAIN_SCREEN_NAME e @ '' screen!''))
         \<and> render_pass e p navigation descriptors dims st c =
           Inl (Error (''You should provide '' @ MAIN_SCREEN_NAME e @ '' screen!''))"
  using assms
  by (simp add: SurfSplitNavigator_render_def render_pass_def split_render_def
      find_mainRoute_None missing_main_message_def)

theorem missing_main_route_is_fatal_witness:
  "getIsSplitted wide (mainWidth ex_props)
   \<and> SurfSplitNavigator_render ex_env ex_props wide (0::nat) ex_descriptors []
       ((ex_state 1 ''split'')\<lparr>routes := tl ex_routes\<rparr>)
     = (Inl (Error ''You should provide main screen!'') :: error + (string, nat, nat) element)"
  using missing_main_route_is_fatal [of wide ex_props "(ex_state 1 ''split'')\<lparr>routes := tl ex_routes\<rparr>"
      ex_env "0::nat" ex_descriptors "[]" unmounted]
  by (simp add: ex_defs getIsSplitted_def)

lemma render_route_Inr:
  assumes "render_route d l st mr r i = Inr x" and "key r \<noteq> key mr"
  shows "x = (if index st \<noteq> i \<and> i \<notin> set l then None
              else map_option (ResourceSavingScene (key r) (index st = i)) (d (key r)))
         \<and> (x = None) = (index st \<noteq> i \<and> i \<notin> set l)"
  using assms by (auto simp: render_route_def Let_def split: option.splits if_splits)

text \<open>The policy of one split-mode render, for any value of \<^verbatim>\<open>loaded\<close>.\<close>

lemma detail_route_render:
  assumes split: "getIsSplitted dims (mainWidth p)"
    and ok: "SurfSplitNavigator_render e p dims navigation descriptors ld st = Inr t"
    and uniq: "distinct (map key (routes st))"
    and i: "i < length (routes st)"
    and nonmain: "name (routes st ! i) \<noteq> MAIN_SCREEN_NAME e"
  shows "length (detail_pane t) = length (routes st)
         \<and> detail_pane t ! i =
           (if index st \<noteq> i \<and> i \<notin> set ld then None
            else map_option (ResourceSavingScene (key (routes st ! i)) (index st = i))
                   (descriptors (key (routes st ! i))))
         \<and> (detail_pane t ! i = None) = (index st \<noteq> i \<and> i \<notin> set ld)"
proof -
  from split ok have "split_render e navigation descriptors (chosen_splitStyles (screenOptions p)) ld st = Inr t"
    by (simp add: SurfSplitNavigator_render_def)
  then obtain mr m xs where mr: "find_mainRoute e st = Some mr"
    and xs: "render_routes descriptors ld st mr (routes st) 0 = Inr xs"
    and t: "t = SplitLayout navigation (chosen_splitStyles (screenOptions p)) m xs"
    by (rule split_render_detail)
  from mr have mr_in: "mr \<in> set (routes st)" and mr_name: "name mr = MAIN_SCREEN_NAME e"
    by (simp_all add: find_mainRoute_Some)
  from i have r_in: "routes st ! i \<in> set (routes st)" by simp
  have k: "key (routes st ! i) \<noteq> key mr"
  proof
    assume "key (routes st ! i) = key mr"
    with uniq r_in mr_in have "routes st ! i = mr" by (rule distinct_keys_same)
    with nonmain mr_name show False by simp
  qed
  from t have dp: "detail_pane t = xs" by simp
  from xs have len: "length (detail_pane t) = length (routes st)"
    unfolding dp by (rule render_routes_length)
  from render_routes_nth [OF xs i]
  have r: "render_route descriptors ld st mr (routes st ! i) i = Inr (detail_pane t ! i)"
    unfolding dp by simp
  from len render_route_Inr [OF r k] show ?thesis by (rule conjI)
qed

lemma split_render_succeeds:
  assumes "find_mainRoute e st = Some mr" and "\<forall>r\<in>set (routes st). d (key r) \<noteq> None"
  shows "\<exists>m xs. split_render e nav d sty l st = Inr (SplitLayout nav sty m xs)"
proof -
  from assms(1) have "mr \<in> set (routes st)" by (simp add: find_mainRoute_Some)
  with assms(2) obtain m where m: "d (key mr) = Some m" by auto
  from render_routes_total [OF assms(2)] obtain xs
    where "render_routes d l st mr (routes st) 0 = Inr xs" by blast
  with assms(1) m show ?thesis by (simp add: split_render_def)
qed

text \<open>
  C8, as amended. In a stack-mode render the state is projected by setting its type to
  \<^verbatim>\<open>"stack"\<close>, routes and index unchanged, and the same projection goes to whichever backend
  is chosen: \<^verbatim>\<open>NativeStackView\<close> when the platform is not \<^verbatim>\<open>web\<close> and screens are enabled,
  \<^verbatim>\<open>StackView\<close> otherwise. The backend receives the projected state, the descriptor map and
  the navigation object; \<^verbatim>\<open>StackView\<close> also receives \<^verbatim>\<open>headerMode="none"\<close>.
\<close>

theorem stack_mode_delegates:
  assumes "\<not> getIsSplitted dims (mainWidth p)"
  shows "SurfSplitNavigator_render e p dims navigation descriptors ld st =
           Inr (if Platform_OS e \<noteq> ''web'' \<and> screensEnabled e
                then NativeStackView (st\<lparr>type := ''stack''\<rparr>) navigation descriptors
                else StackView ''none'' (st\<lparr>type := ''stack''\<rparr>) navigation descriptors)
         \<and> routes (st\<lparr>type := ''stack''\<rparr>) = routes st
         \<and> index (st\<lparr>type := ''stack''\<rparr>) = index st
         \<and> type (st\<lparr>type := ''stack''\<rparr>) = ''stack''"
  using assms by (simp add: SurfSplitNavigator_render_def stack_render_def)

theorem stack_mode_delegates_witness:
  "\<not> getIsSplitted narrow (mainWidth ex_props)
   \<and> SurfSplitNavigator_render ex_env ex_props narrow (0::nat) ex_descriptors [] (ex_state 1 ''split'')
     = Inr (NativeStackView (ex_state 1 ''stack'') 0 ex_descriptors)
   \<and> SurfSplitNavigator_render (ex_env\<lparr>Platform_OS := ''web''\<rparr>) ex_props narrow (0::nat)
       ex_descriptors [] (ex_state 1 ''split'')
     = Inr (StackView ''none'' (ex_state 1 ''stack'') 0 ex_descriptors)"
proof -
  have n: "\<not> getIsSplitted narrow (mainWidth ex_props)"
    by (simp add: getIsSplitted_def narrow_def ex_props_def)
  from n stack_mode_delegates [OF n, of ex_env "0::nat" ex_descriptors "[]" "ex_state 1 ''split''"]
    stack_mode_delegates [OF n, of "ex_env\<lparr>Platform_OS := ''web''\<rparr>" "0::nat" ex_descriptors "[]"
      "ex_state 1 ''split''"]
  show ?thesis by (simp add: ex_env_def ex_state_def)
qed

text \<open>
  C8 as stated says the backend is handed the projected state and the descriptor map only.
  Two renders with the same state and descriptors and different navigation objects hand over
  different props.
\<close>

theorem stack_view_receives_navigation:
  "SurfSplitNavigator_render ex_env ex_props narrow (1::nat) ex_descriptors [] (ex_state 1 ''stack'')
     = Inr (NativeStackView (ex_state 1 ''stack'') 1 ex_descriptors)
   \<and> SurfSplitNavigator_render ex_env ex_props narrow (2::nat) ex_descriptors [] (ex_state 1 ''stack'')
     = Inr (NativeStackView (ex_state 1 ''stack'') 2 ex_descriptors)
   \<and> SurfSplitNavigator_render ex_env ex_props narrow (1::nat) ex_descriptors [] (ex_state 1 ''stack'')
     \<noteq> SurfSplitNavigator_render ex_env ex_props narrow (2::nat) ex_descriptors []
         (ex_state 1 ''stack'')"
  by (simp add: SurfSplitNavigator_render_def stack_render_def getIsSplitted_def narrow_def
      ex_props_def ex_env_def ex_state_def)

subsection \<open>Properties of effects and runs\<close>

lemma arrive_component: "component (arrive w ev) = component w"
  by (cases ev) simp_all

lemma arrive_viewport: "viewport (arrive w ev) # observed (viewport (arrive w ev)) evs
    = observed (viewport w) (ev # evs)"
  by (cases ev) simp_all

lemma arrive_store: "viewport_event ev \<Longrightarrow> store (arrive w ev) = store w"
  by (cases ev) simp_all

lemma handle_event_Inr:
  assumes "handle_event R e p nav d w ev = Inr (w', ms)"
  shows "ms = (if deps_changed (isSplitted_deps (component w))
                    (getIsSplitted (viewport (arrive w ev)) (mainWidth p))
               then [split_effect e p (getIsSplitted (viewport (arrive w ev)) (mainWidth p))]
               else [])"
    and "isSplitted_deps (component w') = Some (getIsSplitted (viewport (arrive w ev)) (mainWidth p))"
    and "viewport w' = viewport (arrive w ev)"
    and "store w' = foldl R (store (arrive w ev)) ms"
    and "loaded (component w') =
           (if deps_changed (state_deps (component w)) (store (arrive w ev))
            then loaded_effect (loaded (component w)) (store (arrive w ev))
            else loaded (component w))"
    and "state_deps (component w') = Some (store (arrive w ev))"
  using assms
  by (auto simp: handle_event_def render_pass_def Let_def arrive_component split: sum.splits)

lemma run_Cons_Inr:
  assumes "run R e p nav d w (ev # evs) = Inr (w', ms)"
  obtains w1 ms1 ms2 where "handle_event R e p nav d w ev = Inr (w1, ms1)"
    and "run R e p nav d w1 evs = Inr (w', ms2)" and "ms = ms1 @ ms2"
  using assms by (auto split: sum.splits)

lemma run_messages:
  assumes "run R e p nav d w evs = Inr (w', ms)"
    and "isSplitted_deps (component w) = Some b"
  shows "ms = edge_messages e p b (map (\<lambda>x. getIsSplitted x (mainWidth p)) (observed (viewport w) evs))"
  using assms
proof (induction evs arbitrary: w b ms)
  case Nil
  then show ?case by simp
next
  case (Cons ev evs)
  from Cons.prems(1) obtain w1 ms1 ms2 where
    h: "handle_event R e p nav d w ev = Inr (w1, ms1)" and
    r: "run R e p nav d w1 evs = Inr (w', ms2)" and ms: "ms = ms1 @ ms2"
    by (rule run_Cons_Inr)
  let ?b = "getIsSplitted (viewport (arrive w ev)) (mainWidth p)"
  from handle_event_Inr(2) [OF h] have d1: "isSplitted_deps (component w1) = Some ?b" .
  from handle_event_Inr(3) [OF h] have v1: "viewport w1 = viewport (arrive w ev)" .
  from handle_event_Inr(1) [OF h] Cons.prems(2)
  have m1: "ms1 = (if ?b \<noteq> b then [split_effect e p ?b] else [])"
    by (auto simp: deps_changed_def)
  from Cons.IH [OF r d1]
  have "ms2 = edge_messages e p ?b
      (map (\<lambda>x. getIsSplitted x (mainWidth p)) (observed (viewport (arrive w ev)) evs))"
    by (simp add: v1)
  with m1 ms show ?case
    by (simp add: arrive_viewport [symmetric])
qed

lemma length_edge_messages: "length (edge_messages e p b bs) = edges (b # bs)"
  by (induction bs arbitrary: b) auto

lemma type_reduce: "type (SurfSplitRouter_reduce policy st (setSplitted b t)) = mode_type b"
  by simp

lemma handle_event_sync:
  assumes h: "handle_event (SurfSplitRouter_reduce policy) e p nav d w ev = Inr (w', ms)"
    and pre: "isSplitted_deps (component w) = None \<or> (in_sync p w \<and> viewport_event ev)"
  shows "in_sync p w'"
proof -
  let ?b = "getIsSplitted (viewport (arrive w ev)) (mainWidth p)"
  note H = handle_event_Inr [OF h]
  show ?thesis
  proof (cases "deps_changed (isSplitted_deps (component w)) ?b")
    case True
    with H(1) have "ms = [split_effect e p ?b]" by simp
    with H(4) have "type (store w') = mode_type ?b" by (simp add: split_effect_def)
    with H(2,3) show ?thesis by (simp add: in_sync_def)
  next
    case False
    then have dep: "isSplitted_deps (component w) = Some ?b" by (simp add: deps_changed_def)
    with pre have s: "in_sync p w" and v: "viewport_event ev" by auto
    from False H(1) have "ms = []" by simp
    with H(4) v have "store w' = store w" by (simp add: arrive_store)
    moreover from s dep have "type (store w) = mode_type ?b" by (simp add: in_sync_def)
    ultimately show ?thesis using H(2,3) by (simp add: in_sync_def)
  qed
qed

lemma run_sync:
  assumes "run (SurfSplitRouter_reduce policy) e p nav d w evs = Inr (w', ms)"
    and "in_sync p w" and "list_all viewport_event evs"
  shows "in_sync p w'"
  using assms
proof (induction evs arbitrary: w ms)
  case Nil
  then show ?case by simp
next
  case (Cons ev evs)
  from Cons.prems(1) obtain w1 ms1 ms2 where
    h: "handle_event (SurfSplitRouter_reduce policy) e p nav d w ev = Inr (w1, ms1)" and
    r: "run (SurfSplitRouter_reduce policy) e p nav d w1 evs = Inr (w', ms2)"
    by (rule run_Cons_Inr)
  from Cons.prems(2,3) have "in_sync p w1"
    by (intro handle_event_sync [OF h]) simp
  with Cons.IH [OF r] Cons.prems(3) show ?case by simp
qed

lemma run_viewport:
  assumes "run R e p nav d w evs = Inr (w', ms)"
  shows "viewport w' = last (viewport w # observed (viewport w) evs)"
  using assms
proof (induction evs arbitrary: w ms)
  case Nil
  then show ?case by simp
next
  case (Cons ev evs)
  from Cons.prems(1) obtain w1 ms1 ms2 where
    h: "handle_event R e p nav d w ev = Inr (w1, ms1)" and
    r: "run R e p nav d w1 evs = Inr (w', ms2)"
    by (rule run_Cons_Inr)
  from handle_event_Inr(3) [OF h] have v1: "viewport w1 = viewport (arrive w ev)" .
  from Cons.IH [OF r] have "viewport w' = last (viewport (arrive w ev) # observed (viewport (arrive w ev)) evs)"
    by (simp add: v1)
  then show ?case by (simp add: arrive_viewport [symmetric])
qed

lemma mount_Inr:
  assumes "mount R e p nav d dims0 st0 = Inr (w0, ms0)"
  shows "ms0 = [split_effect e p (getIsSplitted dims0 (mainWidth p))]"
    and "viewport w0 = dims0"
    and "isSplitted_deps (component w0) = Some (getIsSplitted dims0 (mainWidth p))"
    and "loaded (component w0) = [index st0]"
proof -
  from assms have h: "handle_event R e p nav d
      \<lparr>component = unmounted, viewport = dims0, store = st0\<rparr> Rerender = Inr (w0, ms0)"
    by (simp add: mount_def)
  from handle_event_Inr(1) [OF h]
  show "ms0 = [split_effect e p (getIsSplitted dims0 (mainWidth p))]"
    by (simp add: unmounted_def deps_changed_def)
  from handle_event_Inr(3) [OF h] show "viewport w0 = dims0" by simp
  from handle_event_Inr(2) [OF h]
  show "isSplitted_deps (component w0) = Some (getIsSplitted dims0 (mainWidth p))" by simp
  from handle_event_Inr(5) [OF h] show "loaded (component w0) = [index st0]"
    by (simp add: unmounted_def deps_changed_def loaded_effect_def)
qed

text \<open>When a render pass commits: always in stack mode; in split mode when the main route
  is there and every route has a descriptor.\<close>

lemma render_pass_commits:
  assumes "getIsSplitted dims (mainWidth p) \<longrightarrow>
      find_mainRoute e st \<noteq> None \<and> (\<forall>r\<in>set (routes st). d (key r) \<noteq> None)"
  shows "\<exists>cm. render_pass e p nav d dims st c = Inr cm"
proof (cases "getIsSplitted dims (mainWidth p)")
  case True
  with assms obtain mr where mr: "find_mainRoute e st = Some mr"
    and ds: "\<forall>r\<in>set (routes st). d (key r) \<noteq> None" by auto
  from split_render_succeeds [OF mr ds, where nav = nav and l = "loaded c"
      and sty = "chosen_splitStyles (screenOptions p)"]
  obtain m xs where "split_render e nav d (chosen_splitStyles (screenOptions p)) (loaded c) st
      = Inr (SplitLayout nav (chosen_splitStyles (screenOptions p)) m xs)"
    by blast
  with True show ?thesis
    by (simp add: render_pass_def SurfSplitNavigator_render_def)
next
  case False
  then show ?thesis by (simp add: render_pass_def SurfSplitNavigator_render_def)
qed

text \<open>The concrete runs the witnesses below use, evaluated.\<close>

lemmas pass_defs = handle_event_def render_pass_def SurfSplitNavigator_render_def
  split_render_def stack_render_def find_mainRoute_def render_route_def getIsSplitted_def
  deps_changed_def split_effect_def loaded_effect_def unmounted_def mode_type_def
  chosen_splitStyles_def splitStylesFromOptions_def options_or_empty_def empty_options_def

lemma ex_mount_narrow:
  "mount (SurfSplitRouter_reduce ex_policy) ex_env ex_props (0::nat) ex_descriptors narrow
     (ex_state 0 ''stack'')
   = Inr (ex_world [0] False (ex_state 0 ''stack'') narrow (ex_state 0 ''stack''),
          [setSplitted False ''main''])"
  by (simp add: mount_def pass_defs ex_defs)

lemma ex_run_resizes:
  "run (SurfSplitRouter_reduce ex_policy) ex_env ex_props (0::nat) ex_descriptors
     (ex_world [0] False (ex_state 0 ''stack'') narrow (ex_state 0 ''stack''))
     [DimensionsChange wide, Rerender, DimensionsChange (wide\<lparr>width := 500\<rparr>),
      DimensionsChange narrow]
   = Inr (ex_world [0] False (ex_state 0 ''split'') narrow (ex_state 0 ''stack''),
          [setSplitted True ''detailA'', setSplitted False ''main''])"
  by (simp add: pass_defs ex_defs)

lemma ex_run_focus:
  "run (SurfSplitRouter_reduce ex_policy) ex_env ex_props (0::nat) ex_descriptors
     (ex_unmounted wide (ex_state 2 ''split''))
     [Rerender, StateChange (ex_state 1 ''split''), StateChange (ex_state 2 ''split'')]
   = Inr (ex_world [2, 1] True (ex_state 2 ''split'') wide (ex_state 2 ''split''),
          [setSplitted True ''detailA''])"
  by (simp add: pass_defs ex_defs)

text \<open>
  C1. Take a component that has mounted (the mount pass sends the first synchronization, there
  being no earlier value to compare with) and any sequence of events whose render passes all
  commit, the store reducing as the specification says. The actions dispatched during the
  sequence are those of the specification's edge detector run on the booleans the passes saw:
  one per place where the boolean differs from the one before, none at a pass where it is the
  same, so their number is the number of edges and not the number of width changes or of
  renders. When the events are viewport updates and re-renders only (nobody else replaces the
  store's state), the type of the store's state after the sequence is the one of the mode the
  last observed width gives.
\<close>

theorem mode_synchronisation:
  assumes m: "mount (SurfSplitRouter_reduce policy) e p nav d dims0 st0 = Inr (w0, ms0)"
    and r: "run (SurfSplitRouter_reduce policy) e p nav d w0 evs = Inr (w, ms)"
  shows "ms0 = [split_effect e p (getIsSplitted dims0 (mainWidth p))]
    \<and> ms = edge_messages e p (getIsSplitted dims0 (mainWidth p))
             (map (\<lambda>x. getIsSplitted x (mainWidth p)) (observed dims0 evs))
    \<and> length ms = edges (map (\<lambda>x. getIsSplitted x (mainWidth p)) (dims0 # observed dims0 evs))
    \<and> (list_all viewport_event evs \<longrightarrow>
         type (store w) =
           mode_type (getIsSplitted (last (dims0 # observed dims0 evs)) (mainWidth p)))"
proof -
  note M = mount_Inr [OF m]
  from run_messages [OF r M(3)] M(2)
  have ms: "ms = edge_messages e p (getIsSplitted dims0 (mainWidth p))
             (map (\<lambda>x. getIsSplitted x (mainWidth p)) (observed dims0 evs))"
    by simp
  then have len: "length ms =
      edges (map (\<lambda>x. getIsSplitted x (mainWidth p)) (dims0 # observed dims0 evs))"
    by (simp add: length_edge_messages)
  have ty: "type (store w) =
      mode_type (getIsSplitted (last (dims0 # observed dims0 evs)) (mainWidth p))"
    if v: "list_all viewport_event evs"
  proof -
    from m have "in_sync p w0"
      unfolding mount_def by (rule handle_event_sync) (simp add: unmounted_def)
    with r have "in_sync p w" using v by (rule run_sync)
    then have "type (store w) = mode_type (getIsSplitted (viewport w) (mainWidth p))"
      by (simp add: in_sync_def)
    with run_viewport [OF r] M(2) show ?thesis by simp
  qed
  from M(1) ms len ty show ?thesis by blast
qed

theorem mode_synchronisation_witness:
  "mount (SurfSplitRouter_reduce ex_policy) ex_env ex_props (0::nat) ex_descriptors narrow
     (ex_state 0 ''stack'')
     = Inr (ex_world [0] False (ex_state 0 ''stack'') narrow (ex_state 0 ''stack''),
            [setSplitted False ''main''])
   \<and> run (SurfSplitRouter_reduce ex_policy) ex_env ex_props (0::nat) ex_descriptors
       (ex_world [0] False (ex_state 0 ''stack'') narrow (ex_state 0 ''stack''))
       [DimensionsChange wide, Rerender, DimensionsChange (wide\<lparr>width := 500\<rparr>),
        DimensionsChange narrow]
     = Inr (ex_world [0] False (ex_state 0 ''split'') narrow (ex_state 0 ''stack''),
            [setSplitted True ''detailA'', setSplitted False ''main''])
   \<and> list_all viewport_event
       [DimensionsChange wide, Rerender, DimensionsChange (wide\<lparr>width := 500\<rparr>),
        DimensionsChange narrow]
   \<and> edges [False, True, True, True, False] = 2
   \<and> type (store (ex_world [0] False (ex_state 0 ''split'') narrow (ex_state 0 ''stack'')))
     = mode_type (getIsSplitted narrow (mainWidth ex_props))"
  using mode_synchronisation [OF ex_mount_narrow ex_run_resizes] ex_mount_narrow ex_run_resizes
  by simp

lemma handle_event_loaded:
  assumes "handle_event R e p nav d w ev = Inr (w', ms)"
  shows "\<exists>xs. loaded (component w') = loaded (component w) @ xs"
  using handle_event_Inr(5) [OF assms] by (simp add: loaded_effect_def)

lemma run_loaded:
  assumes "run R e p nav d w evs = Inr (w', ms)"
  shows "\<exists>xs. loaded (component w') = loaded (component w) @ xs"
  using assms
proof (induction evs arbitrary: w ms)
  case Nil
  then show ?case by simp
next
  case (Cons ev evs)
  from Cons.prems obtain w1 ms1 ms2 where
    h: "handle_event R e p nav d w ev = Inr (w1, ms1)" and
    r: "run R e p nav d w1 evs = Inr (w', ms2)"
    by (rule run_Cons_Inr)
  from handle_event_loaded [OF h] obtain xs
    where "loaded (component w1) = loaded (component w) @ xs" ..
  moreover from Cons.IH [OF r] obtain ys
    where "loaded (component w') = loaded (component w1) @ ys" ..
  ultimately show ?case by simp
qed

text \<open>
  C4. Over any sequence of events that commit (focus changes by the store, viewport changes,
  re-renders), started in any state of the component, \<^verbatim>\<open>loaded\<close> after the sequence is
  \<^verbatim>\<open>loaded\<close> before it with indices appended: every index that was in it is still in it.
  With a sequence of one event this is the step from \<open>n - 1\<close> to \<open>n\<close>.
\<close>

theorem loaded_only_grows:
  assumes "run R e p nav d w evs = Inr (w', ms)"
  shows "set (loaded (component w)) \<subseteq> set (loaded (component w'))
    \<and> (\<exists>xs. loaded (component w') = loaded (component w) @ xs)"
proof -
  from run_loaded [OF assms] obtain xs
    where xs: "loaded (component w') = loaded (component w) @ xs" ..
  then have "set (loaded (component w)) \<subseteq> set (loaded (component w'))" by simp
  with xs show ?thesis by blast
qed

theorem loaded_only_grows_witness:
  "run (SurfSplitRouter_reduce ex_policy) ex_env ex_props (0::nat) ex_descriptors
     (ex_unmounted wide (ex_state 2 ''split''))
     [Rerender, StateChange (ex_state 1 ''split''), StateChange (ex_state 2 ''split'')]
     = Inr (ex_world [2, 1] True (ex_state 2 ''split'') wide (ex_state 2 ''split''),
            [setSplitted True ''detailA''])
   \<and> loaded (component (ex_unmounted wide (ex_state 2 ''split''))) = []
   \<and> loaded (component (ex_world [2, 1] True (ex_state 2 ''split'') wide (ex_state 2 ''split'')))
     = [2, 1]"
  using loaded_only_grows [OF ex_run_focus] ex_run_focus
  by (simp add: ex_world_def ex_unmounted_def unmounted_def)

lemma focus_recorded_unmounted: "focus_recorded unmounted"
  by (simp add: focus_recorded_def unmounted_def)

lemma handle_event_focused:
  assumes h: "handle_event R e p nav d w ev = Inr (w', ms)"
    and inv: "focus_recorded (component w)"
  shows "index (store (arrive w ev)) \<in> set (loaded (component w'))"
proof (cases "deps_changed (state_deps (component w)) (store (arrive w ev))")
  case True
  with handle_event_Inr(5) [OF h] show ?thesis by (simp add: loaded_effect_def)
next
  case False
  then have "state_deps (component w) = Some (store (arrive w ev))"
    by (simp add: deps_changed_def)
  with inv have "index (store (arrive w ev)) \<in> set (loaded (component w))"
    by (simp add: focus_recorded_def)
  with False handle_event_Inr(5) [OF h] show ?thesis by simp
qed

lemma handle_event_focus_recorded:
  assumes h: "handle_event R e p nav d w ev = Inr (w', ms)"
    and inv: "focus_recorded (component w)"
  shows "focus_recorded (component w')"
  using handle_event_focused [OF h inv] handle_event_Inr(6) [OF h]
  by (simp add: focus_recorded_def)

lemma run_focus_recorded:
  assumes "run R e p nav d w evs = Inr (w', ms)" and "focus_recorded (component w)"
  shows "focus_recorded (component w')"
  using assms
proof (induction evs arbitrary: w ms)
  case Nil
  then show ?case by simp
next
  case (Cons ev evs)
  from Cons.prems(1) obtain w1 ms1 ms2 where
    h: "handle_event R e p nav d w ev = Inr (w1, ms1)" and
    r: "run R e p nav d w1 evs = Inr (w', ms2)"
    by (rule run_Cons_Inr)
  from h Cons.prems(2) have "focus_recorded (component w1)"
    by (rule handle_event_focus_recorded)
  with r show ?case by (rule Cons.IH)
qed

text \<open>
  An index that had the focus in a committed pass of a component's life is in \<^verbatim>\<open>loaded\<close>
  from then on.
\<close>

lemma focused_stays_loaded:
  assumes fresh: "component ws = unmounted"
    and before: "run R e p nav d ws evs0 = Inr (w, ms0)"
    and pass: "handle_event R e p nav d w ev = Inr (w1, ms1)"
    and after: "run R e p nav d w1 evs2 = Inr (w2, ms2)"
  shows "index (store (arrive w ev)) \<in> set (loaded (component w2))"
proof -
  from fresh have "focus_recorded (component ws)" by (simp add: focus_recorded_unmounted)
  with before have "focus_recorded (component w)" by (rule run_focus_recorded)
  with pass have "index (store (arrive w ev)) \<in> set (loaded (component w1))"
    by (rule handle_event_focused)
  moreover from run_loaded [OF after] obtain xs
    where "loaded (component w2) = loaded (component w1) @ xs" ..
  ultimately show ?thesis by simp
qed

lemma ex_run_mount_detailB:
  "run (SurfSplitRouter_reduce ex_policy) ex_env ex_props (0::nat) ex_descriptors
     (ex_unmounted wide (ex_state 2 ''split'')) [Rerender]
   = Inr (ex_world [2] True (ex_state 2 ''split'') wide (ex_state 2 ''split''),
          [setSplitted True ''detailA''])"
  by (simp add: pass_defs ex_defs)

lemma ex_pass_focus_detailA:
  "handle_event (SurfSplitRouter_reduce ex_policy) ex_env ex_props (0::nat) ex_descriptors
     (ex_world [2] True (ex_state 2 ''split'') wide (ex_state 2 ''split''))
     (StateChange (ex_state 1 ''split''))
   = Inr (ex_world [2, 1] True (ex_state 1 ''split'') wide (ex_state 1 ''split''), [])"
  by (simp add: pass_defs ex_defs)

lemma ex_run_focus_detailB:
  "run (SurfSplitRouter_reduce ex_policy) ex_env ex_props (0::nat) ex_descriptors
     (ex_world [2, 1] True (ex_state 1 ''split'') wide (ex_state 1 ''split''))
     [StateChange (ex_state 2 ''split'')]
   = Inr (ex_world [2, 1] True (ex_state 2 ''split'') wide (ex_state 2 ''split''), [])"
  by (simp add: pass_defs ex_defs)

text \<open>
  C3. In a split-mode render that returns a tree, with route keys unique as the data model
  has them, the detail pane has one child per route, and for a route at index \<open>i\<close> that is not
  named \<^verbatim>\<open>MAIN_SCREEN_NAME\<close> the child is \<^verbatim>\<open>null\<close> exactly when \<open>i\<close> is neither the focused
  index nor in \<^verbatim>\<open>loaded\<close>; otherwise it is the route's rendering inside a
  \<^verbatim>\<open>ResourceSavingScene\<close> whose \<^verbatim>\<open>isVisible\<close> is \<open>index st = i\<close>. Over the life of a
  component: when some committed pass since mounting rendered a state whose focused index was
  \<open>i\<close>, and the render at hand comes any number of committed passes later with another index
  focused, the route at \<open>i\<close> is in the tree, inside a scene whose \<^verbatim>\<open>isVisible\<close> is false.
\<close>

theorem detail_route_policy:
  assumes split: "getIsSplitted dims (mainWidth p)"
    and ok: "SurfSplitNavigator_render e p dims navigation descriptors ld st = Inr t"
    and uniq: "distinct (map key (routes st))"
    and i: "i < length (routes st)"
    and nonmain: "name (routes st ! i) \<noteq> MAIN_SCREEN_NAME e"
  shows "length (detail_pane t) = length (routes st)
         \<and> detail_pane t ! i =
           (if index st \<noteq> i \<and> i \<notin> set ld then None
            else map_option (ResourceSavingScene (key (routes st ! i)) (index st = i))
                   (descriptors (key (routes st ! i))))
         \<and> (detail_pane t ! i = None) = (index st \<noteq> i \<and> i \<notin> set ld)
         \<and> (component ws = unmounted \<and>
             run R e p navigation descriptors ws evs = Inr (w, ms) \<and>
             handle_event R e p navigation descriptors w ev = Inr (w', ms') \<and>
             index (store (arrive w ev)) = i \<and>
             run R e p navigation descriptors w' evs' = Inr (w'', ms'') \<and>
             ld = loaded (component w'') \<and> index st \<noteq> i
             \<longrightarrow> (\<exists>ui. descriptors (key (routes st ! i)) = Some ui \<and>
                    detail_pane t ! i =
                      Some (ResourceSavingScene (key (routes st ! i)) False ui)))"
proof -
  note one = detail_route_render [OF split ok uniq i nonmain]
  from one have a: "length (detail_pane t) = length (routes st)" by (rule conjunct1)
  from one have b: "detail_pane t ! i =
           (if index st \<noteq> i \<and> i \<notin> set ld then None
            else map_option (ResourceSavingScene (key (routes st ! i)) (index st = i))
                   (descriptors (key (routes st ! i))))"
    by (rule conjunct2 [THEN conjunct1])
  from one have c: "(detail_pane t ! i = None) = (index st \<noteq> i \<and> i \<notin> set ld)"
    by (rule conjunct2 [THEN conjunct2])
  have d: "\<exists>ui. descriptors (key (routes st ! i)) = Some ui \<and>
                    detail_pane t ! i =
                      Some (ResourceSavingScene (key (routes st ! i)) False ui)"
    if fresh: "component ws = unmounted"
      and before: "run R e p navigation descriptors ws evs = Inr (w, ms)"
      and pass: "handle_event R e p navigation descriptors w ev = Inr (w', ms')"
      and foc: "index (store (arrive w ev)) = i"
      and after: "run R e p navigation descriptors w' evs' = Inr (w'', ms'')"
      and ld: "ld = loaded (component w'')"
      and away: "index st \<noteq> i"
  proof -
    from focused_stays_loaded [OF fresh before pass after] foc ld
    have mem: "i \<in> set ld" by simp
    with c have "detail_pane t ! i \<noteq> None" by simp
    then obtain sc where sc: "detail_pane t ! i = Some sc" by blast
    from b mem away
    have "detail_pane t ! i =
        map_option (ResourceSavingScene (key (routes st ! i)) False)
          (descriptors (key (routes st ! i)))"
      by simp
    with sc show ?thesis by (cases "descriptors (key (routes st ! i))") simp_all
  qed
  from a b c d show ?thesis by blast
qed

theorem detail_route_policy_witness:
  "run (SurfSplitRouter_reduce ex_policy) ex_env ex_props (0::nat) ex_descriptors
     (ex_unmounted wide (ex_state 2 ''split'')) [Rerender]
     = Inr (ex_world [2] True (ex_state 2 ''split'') wide (ex_state 2 ''split''),
            [setSplitted True ''detailA''])
   \<and> handle_event (SurfSplitRouter_reduce ex_policy) ex_env ex_props (0::nat) ex_descriptors
       (ex_world [2] True (ex_state 2 ''split'') wide (ex_state 2 ''split''))
       (StateChange (ex_state 1 ''split''))
     = Inr (ex_world [2, 1] True (ex_state 1 ''split'') wide (ex_state 1 ''split''), [])
   \<and> run (SurfSplitRouter_reduce ex_policy) ex_env ex_props (0::nat) ex_descriptors
       (ex_world [2, 1] True (ex_state 1 ''split'') wide (ex_state 1 ''split''))
       [StateChange (ex_state 2 ''split'')]
     = Inr (ex_world [2, 1] True (ex_state 2 ''split'') wide (ex_state 2 ''split''), [])
   \<and> SurfSplitNavigator_render ex_env ex_props wide (0::nat) ex_descriptors [2, 1]
       (ex_state 2 ''split'')
     = Inr (SplitLayout 0 default_splitStyles ''Main''
         [None, Some (ResourceSavingScene ''detailA-2'' False ''DetailA''),
          Some (ResourceSavingScene ''detailB-3'' True ''DetailB'')])
   \<and> detail_pane (SplitLayout (0::nat) (default_splitStyles :: nat splitStyles) ''Main''
         [None, Some (ResourceSavingScene ''detailA-2'' False ''DetailA''),
          Some (ResourceSavingScene ''detailB-3'' True ''DetailB'')]) ! 1
     = Some (ResourceSavingScene ''detailA-2'' False ''DetailA'')"
proof -
  let ?t = "SplitLayout (0::nat) (default_splitStyles :: nat splitStyles) ''Main''
         [None, Some (ResourceSavingScene ''detailA-2'' False ''DetailA''),
          Some (ResourceSavingScene ''detailB-3'' True ''DetailB'')]"
  let ?st = "ex_state 2 ''split''"
  have split: "getIsSplitted wide (mainWidth ex_props)"
    by (simp add: ex_defs getIsSplitted_def)
  have ok: "SurfSplitNavigator_render ex_env ex_props wide (0::nat) ex_descriptors [2, 1] ?st
      = Inr ?t"
    by (simp add: ex_defs SurfSplitNavigator_render_def getIsSplitted_def split_render_def
        find_mainRoute_def render_route_def chosen_splitStyles_def splitStylesFromOptions_def
        options_or_empty_def empty_options_def)
  have uniq: "distinct (map key (routes ?st))"
    by (simp add: ex_defs)
  have i: "1 < length (routes ?st)"
    by (simp add: ex_defs)
  have nonmain: "name (routes ?st ! 1) \<noteq> MAIN_SCREEN_NAME ex_env"
    by (simp add: ex_defs)
  have fresh: "component (ex_unmounted wide ?st) = unmounted"
    by (simp add: ex_unmounted_def)
  have foc: "index (store (arrive (ex_world [2] True ?st wide ?st)
      (StateChange (ex_state 1 ''split'')))) = 1"
    by (simp add: ex_state_def)
  have ld: "[2, 1] = loaded (component (ex_world [2, 1] True ?st wide ?st))"
    by (simp add: ex_world_def)
  have away: "index ?st \<noteq> 1"
    by (simp add: ex_state_def)
  from detail_route_policy [OF split ok uniq i nonmain,
      where ws = "ex_unmounted wide ?st" and R = "SurfSplitRouter_reduce ex_policy"
        and evs = "[Rerender]" and w = "ex_world [2] True ?st wide ?st"
        and ms = "[setSplitted True ''detailA'']"
        and ev = "StateChange (ex_state 1 ''split'')"
        and w' = "ex_world [2, 1] True (ex_state 1 ''split'') wide (ex_state 1 ''split'')"
        and ms' = "[]" and evs' = "[StateChange ?st]"
        and w'' = "ex_world [2, 1] True ?st wide ?st" and ms'' = "[]"]
    fresh ex_run_mount_detailB ex_pass_focus_detailA foc ex_run_focus_detailB ld away ok
  show ?thesis by simp
qed

lemma run_dispatched:
  assumes "run R e p nav d w evs = Inr (w', ms)"
  shows "\<forall>m\<in>set ms. \<exists>x\<in>set (observed (viewport w) evs).
           m = split_effect e p (getIsSplitted x (mainWidth p))"
  using assms
proof (induction evs arbitrary: w ms)
  case Nil
  then show ?case by simp
next
  case (Cons ev evs)
  from Cons.prems obtain w1 ms1 ms2 where
    h: "handle_event R e p nav d w ev = Inr (w1, ms1)" and
    r: "run R e p nav d w1 evs = Inr (w', ms2)" and ms: "ms = ms1 @ ms2"
    by (rule run_Cons_Inr)
  let ?x = "viewport (arrive w ev)"
  have obs: "observed (viewport w) (ev # evs) = ?x # observed ?x evs"
    by (simp add: arrive_viewport)
  from handle_event_Inr(1) [OF h]
  have "\<forall>m\<in>set ms1. m = split_effect e p (getIsSplitted ?x (mainWidth p))"
    by (simp split: if_splits)
  moreover from Cons.IH [OF r] handle_event_Inr(3) [OF h]
  have "\<forall>m\<in>set ms2. \<exists>x\<in>set (observed ?x evs).
           m = split_effect e p (getIsSplitted x (mainWidth p))"
    by simp
  ultimately show ?case
    unfolding obs ms by auto
qed

text \<open>
  C7. Every action dispatched during a run, the mount pass included when the run starts
  unmounted, is \<^verbatim>\<open>setSplitted\<close> of the boolean \<open>b\<close> a render pass of that run computed from
  its viewport, with target \<^verbatim>\<open>initialRouteName\<close> when \<open>b\<close> is true and
  \<^verbatim>\<open>MAIN_SCREEN_NAME\<close> when it is false. For a run of one event the pass is the one that
  dispatched, so \<open>b\<close> is the current boolean.
\<close>

theorem dispatched_action_shape:
  assumes "run R e p nav d w evs = Inr (w', ms)"
  shows "\<forall>m\<in>set ms. \<exists>x\<in>set (observed (viewport w) evs).
           m = setSplitted (getIsSplitted x (mainWidth p))
                 (if getIsSplitted x (mainWidth p) then initialRouteName p
                  else MAIN_SCREEN_NAME e)"
  using run_dispatched [OF assms] unfolding split_effect_def .

theorem dispatched_action_shape_witness:
  "run (SurfSplitRouter_reduce ex_policy) ex_env ex_props (0::nat) ex_descriptors
     (ex_world [0] False (ex_state 0 ''stack'') narrow (ex_state 0 ''stack''))
     [DimensionsChange wide, Rerender, DimensionsChange (wide\<lparr>width := 500\<rparr>),
      DimensionsChange narrow]
     = Inr (ex_world [0] False (ex_state 0 ''split'') narrow (ex_state 0 ''stack''),
            [setSplitted True ''detailA'', setSplitted False ''main''])
   \<and> setSplitted True ''detailA''
     = setSplitted (getIsSplitted wide (mainWidth ex_props))
         (if getIsSplitted wide (mainWidth ex_props) then initialRouteName ex_props
          else MAIN_SCREEN_NAME ex_env)
   \<and> setSplitted False ''main''
     = setSplitted (getIsSplitted narrow (mainWidth ex_props))
         (if getIsSplitted narrow (mainWidth ex_props) then initialRouteName ex_props
          else MAIN_SCREEN_NAME ex_env)"
  using dispatched_action_shape [OF ex_run_resizes] ex_run_resizes
  by (simp add: getIsSplitted_def ex_defs)

lemma render_route_agree:
  assumes "key r \<noteq> key mr \<longrightarrow> (k \<in> set l) = (k \<in> set l')"
  shows "render_route d l st mr r k = render_route d l' st mr r k"
  using assms by (simp add: render_route_def Let_def)

lemma render_routes_agree:
  assumes "\<forall>j<length rs. key (rs ! j) \<noteq> key mr \<longrightarrow> (k + j \<in> set l) = (k + j \<in> set l')"
  shows "render_routes d l st mr rs k = render_routes d l' st mr rs k"
  using assms
proof (induction rs arbitrary: k)
  case Nil
  then show ?case by simp
next
  case (Cons r rs)
  from Cons.prems have "key r \<noteq> key mr \<longrightarrow> (k \<in> set l) = (k \<in> set l')"
    by fastforce
  then have hd: "render_route d l st mr r k = render_route d l' st mr r k"
    by (rule render_route_agree)
  have "\<forall>j<length rs. key (rs ! j) \<noteq> key mr \<longrightarrow> (Suc k + j \<in> set l) = (Suc k + j \<in> set l')"
  proof (intro allI impI)
    fix j assume "j < length rs" and "key (rs ! j) \<noteq> key mr"
    with Cons.prems [rule_format, of "Suc j"]
    show "(Suc k + j \<in> set l) = (Suc k + j \<in> set l')" by simp
  qed
  then have "render_routes d l st mr rs (Suc k) = render_routes d l' st mr rs (Suc k)"
    by (rule Cons.IH)
  with hd show ?case by (simp split: sum.splits)
qed

lemma render_route_main:
  "render_route d l st mr r k = Inr x \<Longrightarrow> key r = key mr \<Longrightarrow> x = None"
  by (simp add: render_route_def Let_def)

text \<open>
  C5, as amended. The second effect puts the focused index into \<^verbatim>\<open>loaded\<close> whichever route
  it belongs to, the main route included. A split-mode render does not read \<^verbatim>\<open>loaded\<close> for
  the main route: two values of \<^verbatim>\<open>loaded\<close> that differ only at indices of routes with the
  main route's key give the same tree, the main pane holds the main route's rendering, and the
  detail pane has nothing at the main route's index.
\<close>

theorem main_route_exempt:
  assumes split: "getIsSplitted dims (mainWidth p)"
    and mr: "find_mainRoute e st = Some mr"
    and agree: "\<forall>i<length (routes st). key (routes st ! i) \<noteq> key mr \<longrightarrow>
                  (i \<in> set ld) = (i \<in> set ld')"
    and ok: "SurfSplitNavigator_render e p dims navigation descriptors ld st = Inr t"
  shows "SurfSplitNavigator_render e p dims navigation descriptors ld' st = Inr t
         \<and> descriptors (key mr) = Some (main_pane t)
         \<and> (\<forall>i<length (routes st). key (routes st ! i) = key mr \<longrightarrow> detail_pane t ! i = None)
         \<and> index st \<in> set (loaded_effect ld st)"
proof -
  let ?sty = "chosen_splitStyles (screenOptions p)"
  from split ok have sr: "split_render e navigation descriptors ?sty ld st = Inr t"
    by (simp add: SurfSplitNavigator_render_def)
  then obtain mr' m xs where mr': "find_mainRoute e st = Some mr'"
    and m: "descriptors (key mr') = Some m"
    and xs: "render_routes descriptors ld st mr' (routes st) 0 = Inr xs"
    and t: "t = SplitLayout navigation ?sty m xs"
    by (rule split_render_detail)
  from mr mr' have same: "mr' = mr" by simp
  from agree have "render_routes descriptors ld st mr (routes st) 0
      = render_routes descriptors ld' st mr (routes st) 0"
    by (intro render_routes_agree) simp
  with sr mr have "split_render e navigation descriptors ?sty ld' st = Inr t"
    by (simp add: split_render_def split: option.splits sum.splits)
  with split have a: "SurfSplitNavigator_render e p dims navigation descriptors ld' st = Inr t"
    by (simp add: SurfSplitNavigator_render_def)
  from m t same have b: "descriptors (key mr) = Some (main_pane t)" by simp
  have c: "\<forall>i<length (routes st). key (routes st ! i) = key mr \<longrightarrow> detail_pane t ! i = None"
  proof (intro allI impI)
    fix i assume i: "i < length (routes st)" and k: "key (routes st ! i) = key mr"
    from render_routes_nth [OF xs i]
    have "render_route descriptors ld st mr' (routes st ! i) i = Inr (xs ! i)" by simp
    with k same have "xs ! i = None" by (simp add: render_route_main)
    with t show "detail_pane t ! i = None" by simp
  qed
  have d: "index st \<in> set (loaded_effect ld st)" by (simp add: loaded_effect_def)
  from a b c d show ?thesis by blast
qed

theorem main_route_exempt_witness:
  "SurfSplitNavigator_render ex_env ex_props wide (0::nat) ex_descriptors [0, 1]
     (ex_state 1 ''split'')
     = Inr (SplitLayout 0 default_splitStyles ''Main''
         [None, Some (ResourceSavingScene ''detailA-2'' True ''DetailA''), None])
   \<and> SurfSplitNavigator_render ex_env ex_props wide (0::nat) ex_descriptors [1]
     (ex_state 1 ''split'')
     = Inr (SplitLayout 0 default_splitStyles ''Main''
         [None, Some (ResourceSavingScene ''detailA-2'' True ''DetailA''), None])
   \<and> find_mainRoute ex_env (ex_state 1 ''split'') = Some \<lparr>key = ''main-1'', name = ''main''\<rparr>
   \<and> ex_descriptors ''main-1'' = Some ''Main''"
proof -
  let ?t = "SplitLayout (0::nat) (default_splitStyles :: nat splitStyles) ''Main''
         [None, Some (ResourceSavingScene ''detailA-2'' True ''DetailA''), None]"
  let ?mr = "\<lparr>key = ''main-1'', name = ''main''\<rparr>"
  have split: "getIsSplitted wide (mainWidth ex_props)"
    by (simp add: ex_defs getIsSplitted_def)
  have mr: "find_mainRoute ex_env (ex_state 1 ''split'') = Some ?mr"
    by (simp add: ex_defs find_mainRoute_def)
  have agree: "\<forall>i<length (routes (ex_state 1 ''split'')).
      key (routes (ex_state 1 ''split'') ! i) \<noteq> key ?mr \<longrightarrow> (i \<in> set [0, 1]) = (i \<in> set [1])"
    by (simp add: ex_defs nth_Cons')
  have ok: "SurfSplitNavigator_render ex_env ex_props wide (0::nat) ex_descriptors [0, 1]
      (ex_state 1 ''split'') = Inr ?t"
    by (simp add: ex_defs SurfSplitNavigator_render_def getIsSplitted_def split_render_def
        find_mainRoute_def render_route_def chosen_splitStyles_def splitStylesFromOptions_def
        options_or_empty_def empty_options_def)
  from main_route_exempt [OF split mr agree ok] ok mr show ?thesis
    by (simp add: ex_descriptors_def)
qed

text \<open>
  C5 as stated says the main route's index never enters \<^verbatim>\<open>loaded\<close>. Mounting with the main
  route focused puts its index 0 there.
\<close>

theorem main_index_enters_loaded:
  "mount (SurfSplitRouter_reduce ex_policy) ex_env ex_props (0::nat) ex_descriptors narrow
     (ex_state 0 ''stack'')
     = Inr (ex_world [0] False (ex_state 0 ''stack'') narrow (ex_state 0 ''stack''),
            [setSplitted False ''main''])
   \<and> name (routes (ex_state 0 ''stack'') ! 0) = MAIN_SCREEN_NAME ex_env
   \<and> 0 \<in> set (loaded (component
         (ex_world [0] False (ex_state 0 ''stack'') narrow (ex_state 0 ''stack''))))"
  using ex_mount_narrow by (simp add: ex_defs)

end
